theory Spec2Isabelle
  imports Main "HOL-Library.Word"
begin

section \<open>Strings and numbers of the program\<close>

text \<open>
  A TypeScript \<^verbatim>\<open>string\<close> is a sequence of UTF-16 code units: \<^verbatim>\<open>s[i]\<close>,
  \<^verbatim>\<open>s.length\<close> and \<^verbatim>\<open>s.charCodeAt(i)\<close> all count code units. A string is
  therefore a list of 16-bit words, and \<open>lit\<close> writes a string literal of the source.

  A TypeScript \<^verbatim>\<open>number\<close> is a double. Every number that the built-in code of
  this program computes is an integer (hashes, identifiers, indices), and doubles compute
  exactly on integers of magnitude up to \<open>2 ^ 53\<close>, so a number is an \<open>int\<close> and
  the functions below compute in exact integers. That is what the program computes as
  long as the values stay below \<open>2 ^ 53\<close>: for the built-in hashes on inputs of up to
  4,000,000 characters (DJB2) and 2,000,000 characters (SDBM), lemmas \<open>djb2_exact\<close>
  and \<open>sdbm_exact\<close>, and for short codes of up to 8 characters, lemma
  \<open>decodeShortUrl_exact\<close>. The theorems about values carry these bounds as
  hypotheses. Beyond them the doubles round: section \<open>Doubles\<close> gives the decoding
  loop with the rounding written out.

  A custom hash function is user code. In the options record it is a function from
  strings to integers, which is what one call sees of a function that returns integers;
  section \<open>A custom hash function with state\<close> models a function that keeps state
  between calls. The theorems about hashes and identifiers are stated for the built-in
  algorithms.
\<close>

type_synonym code_unit = "16 word"
type_synonym jsstring = "code_unit list"
type_synonym number = int

definition lit :: "string \<Rightarrow> jsstring" where
  "lit s = map of_char s"

text \<open>\<^verbatim>\<open>s.charCodeAt(i)\<close> for \<open>i\<close> in range: the code unit as a number.\<close>

definition charCode :: "code_unit \<Rightarrow> number" where
  "charCode c = uint c"

text \<open>
  \<^verbatim>\<open>x << k\<close>: the left operand is converted to a signed 32-bit integer (ToInt32:
  modulo \<open>2 ^ 32\<close>), shifted by \<open>k mod 32\<close> bits within 32 bits, and the result is
  read as a signed 32-bit integer.
\<close>

definition shiftLeft :: "number \<Rightarrow> nat \<Rightarrow> number" where
  "shiftLeft x k = sint (push_bit (k mod 32) (word_of_int x :: 32 word))"

section \<open>The base-62 codec (utils.ts)\<close>

definition CHARACTERS :: jsstring where
  "CHARACTERS = lit ''ABCDEFGHIJKLMNOPQRSTUVWXYZabcdefghijklmnopqrstuvwxyz0123456789''"

definition BASE :: number where
  "BASE = int (length CHARACTERS)"

text \<open>
  The loop of \<^verbatim>\<open>encodeId\<close>: \<^verbatim>\<open>while (num > 0) { shortUrl = CHARACTERS[num % BASE] + shortUrl;
  num = Math.floor(num / BASE); }\<close>. Under the guard \<open>num > 0\<close> the remainder
  \<^verbatim>\<open>%\<close> is \<open>mod\<close>, and \<^verbatim>\<open>Math.floor(num / BASE)\<close> is \<open>div\<close>.
\<close>

function encodeId_loop :: "jsstring \<Rightarrow> number \<Rightarrow> jsstring" where
  "encodeId_loop shortUrl num =
     (if num > 0
      then encodeId_loop (CHARACTERS ! nat (num mod BASE) # shortUrl) (num div BASE)
      else shortUrl)"
  by pat_completeness auto
termination
  by (relation "measure (\<lambda>(shortUrl, num). nat num)")
     (auto simp: BASE_def CHARACTERS_def lit_def)

declare encodeId_loop.simps [simp del]

text \<open>\<^verbatim>\<open>return shortUrl || CHARACTERS[0]\<close>: the empty string is falsy.\<close>

definition encodeId :: "number \<Rightarrow> jsstring" where
  "encodeId ident =
     (let shortUrl = encodeId_loop [] ident
      in if shortUrl = [] then [CHARACTERS ! 0] else shortUrl)"

text \<open>
  \<^verbatim>\<open>CHARACTERS.indexOf(char)\<close> for a one-character string \<open>char\<close>: the position
  of its first occurrence, \<open>-1\<close> when there is none.
\<close>

fun indexOf :: "jsstring \<Rightarrow> code_unit \<Rightarrow> number" where
  "indexOf [] c = - 1"
| "indexOf (x # xs) c =
     (if x = c then 0
      else (let i = indexOf xs c in if i = - 1 then - 1 else i + 1))"

text \<open>\<^verbatim>\<open>new Error(message)\<close>, the only exception of the program.\<close>

datatype error = Error jsstring

definition invalidCharacter :: "code_unit \<Rightarrow> error" where
  "invalidCharacter char = Error (lit ''Invalid character in short URL: '' @ [char])"

fun decodeShortUrl_loop :: "number \<Rightarrow> jsstring \<Rightarrow> error + number" where
  "decodeShortUrl_loop ident [] = Inr ident"
| "decodeShortUrl_loop ident (char # rest) =
     (let charIndex = indexOf CHARACTERS char
      in if charIndex = - 1 then Inl (invalidCharacter char)
         else decodeShortUrl_loop (ident * BASE + charIndex) rest)"

definition decodeShortUrl :: "jsstring \<Rightarrow> error + number" where
  "decodeShortUrl shortCode = decodeShortUrl_loop 0 shortCode"

section \<open>Objects and options (utils.ts, index.ts)\<close>

text \<open>
  A property of an object is absent, present with the value \<^verbatim>\<open>undefined\<close>, or
  present with a value. Reading an absent property gives \<^verbatim>\<open>undefined\<close>
  (\<open>None\<close>). In a spread \<^verbatim>\<open>{ ...a, ...b }\<close> every property present in \<open>b\<close>,
  also one holding \<^verbatim>\<open>undefined\<close>, replaces that of \<open>a\<close>.
\<close>

datatype 'a property = Absent | Undefined | Value 'a

fun getProp :: "'a property \<Rightarrow> 'a option" where
  "getProp Absent = None"
| "getProp Undefined = None"
| "getProp (Value v) = Some v"

fun spreadProp :: "'a property \<Rightarrow> 'a property \<Rightarrow> 'a property" where
  "spreadProp a Absent = a"
| "spreadProp a b = b"

text \<open>Truthiness of a boolean and of a string: \<^verbatim>\<open>undefined\<close> and \<^verbatim>\<open>""\<close> are falsy.\<close>

fun truthyBool :: "bool option \<Rightarrow> bool" where
  "truthyBool None = False"
| "truthyBool (Some b) = b"

fun truthyString :: "jsstring option \<Rightarrow> bool" where
  "truthyString None = False"
| "truthyString (Some s) = (s \<noteq> [])"

text \<open>A value inside a template literal or appended with \<^verbatim>\<open>+=\<close>.\<close>

fun toString :: "jsstring option \<Rightarrow> jsstring" where
  "toString None = lit ''undefined''"
| "toString (Some s) = s"

record ShortUrlOptions =
  domain :: "jsstring property"
  includeRedirectPath :: "bool property"
  redirectPathSegment :: "jsstring property"
  includeProtocol :: "bool property"
  protocol :: "jsstring property"
  pathSeparator :: "jsstring property"

definition DEFAULT_SHORT_URL_OPTIONS :: ShortUrlOptions where
  "DEFAULT_SHORT_URL_OPTIONS =
     \<lparr>domain = Value (lit ''short.url''),
      includeRedirectPath = Value True,
      redirectPathSegment = Value (lit ''r''),
      includeProtocol = Value False,
      protocol = Value (lit ''https''),
      pathSeparator = Value (lit ''/'')\<rparr>"

text \<open>\<^verbatim>\<open>{ ...a, ...b }\<close> on the properties of \<^verbatim>\<open>ShortUrlOptions\<close>.\<close>

definition spreadShortUrlOptions :: "ShortUrlOptions \<Rightarrow> ShortUrlOptions \<Rightarrow> ShortUrlOptions" where
  "spreadShortUrlOptions a b =
     \<lparr>domain = spreadProp (domain a) (domain b),
      includeRedirectPath = spreadProp (includeRedirectPath a) (includeRedirectPath b),
      redirectPathSegment = spreadProp (redirectPathSegment a) (redirectPathSegment b),
      includeProtocol = spreadProp (includeProtocol a) (includeProtocol b),
      protocol = spreadProp (protocol a) (protocol b),
      pathSeparator = spreadProp (pathSeparator a) (pathSeparator b)\<rparr>"

section \<open>The store (utils.ts)\<close>

text \<open>
  \<^verbatim>\<open>urlStorage\<close> is a module-level \<^verbatim>\<open>Map<number, string>\<close>; the functions that
  use it take it as an argument, and \<^verbatim>\<open>storeUrlMapping\<close> returns the updated map.
\<close>

type_synonym store = "number \<rightharpoonup> jsstring"

definition storeUrlMapping :: "number \<Rightarrow> jsstring \<Rightarrow> store \<Rightarrow> store" where
  "storeUrlMapping ident originalUrl urlStorage = urlStorage(ident \<mapsto> originalUrl)"

definition getOriginalUrl :: "number \<Rightarrow> store \<Rightarrow> jsstring option" where
  "getOriginalUrl ident urlStorage = urlStorage ident"

section \<open>Building the short URL (utils.ts)\<close>

text \<open>The argument \<^verbatim>\<open>options?: string | ShortUrlOptions\<close>.\<close>

datatype buildOptions = NoOptions | DomainString jsstring | Options ShortUrlOptions

text \<open>
  \<^verbatim>\<open>const opts = typeof options === "string" ? { ...DEFAULT_SHORT_URL_OPTIONS, domain: options }
  : { ...DEFAULT_SHORT_URL_OPTIONS, ...options }\<close>.
\<close>

definition buildOpts :: "buildOptions \<Rightarrow> ShortUrlOptions" where
  "buildOpts options =
     (case options of
        DomainString d \<Rightarrow> DEFAULT_SHORT_URL_OPTIONS\<lparr>domain := Value d\<rparr>
      | Options os \<Rightarrow> spreadShortUrlOptions DEFAULT_SHORT_URL_OPTIONS os
      | NoOptions \<Rightarrow> DEFAULT_SHORT_URL_OPTIONS)"

definition buildShortUrl :: "number \<Rightarrow> buildOptions \<Rightarrow> jsstring" where
  "buildShortUrl ident options =
     (let opts = buildOpts options;
          shortCode = encodeId ident;
          url = [];
          url = (if truthyBool (getProp (includeProtocol opts))
                    \<and> truthyString (getProp (protocol opts))
                 then url @ toString (getProp (protocol opts)) @ lit ''://''
                 else url);
          url = url @ toString (getProp (domain opts));
          url = (if truthyBool (getProp (includeRedirectPath opts))
                    \<and> truthyString (getProp (redirectPathSegment opts))
                 then url @ toString (getProp (pathSeparator opts))
                          @ toString (getProp (redirectPathSegment opts))
                 else url);
          url = url @ toString (getProp (pathSeparator opts)) @ shortCode
      in url)"

section \<open>Creating a short URL (index.ts)\<close>

datatype hashAlgorithmName = Djb2 | Sdbm | Custom

record CreateShortUrlOptions = ShortUrlOptions +
  hashAlgorithm :: "hashAlgorithmName property"
  customHashFn :: "(jsstring \<Rightarrow> number) property"

text \<open>\<^verbatim>\<open>{ ...DEFAULT_SHORT_URL_OPTIONS, hashAlgorithm: "djb2" }\<close>; no custom function.\<close>

definition DEFAULT_CREATE_OPTIONS :: CreateShortUrlOptions where
  "DEFAULT_CREATE_OPTIONS =
     ShortUrlOptions.extend DEFAULT_SHORT_URL_OPTIONS
       (CreateShortUrlOptions.fields (Value Djb2) Absent)"

text \<open>
  \<^verbatim>\<open>{ ...DEFAULT_CREATE_OPTIONS, domain, ...options }\<close>; the optional argument
  \<open>options\<close> may be \<^verbatim>\<open>undefined\<close>, and spreading \<^verbatim>\<open>undefined\<close> adds nothing.
\<close>

definition spreadCreateOptions ::
    "CreateShortUrlOptions \<Rightarrow> CreateShortUrlOptions option \<Rightarrow> CreateShortUrlOptions" where
  "spreadCreateOptions a options =
     (case options of
        None \<Rightarrow> a
      | Some b \<Rightarrow>
          \<lparr>domain = spreadProp (domain a) (domain b),
           includeRedirectPath = spreadProp (includeRedirectPath a) (includeRedirectPath b),
           redirectPathSegment = spreadProp (redirectPathSegment a) (redirectPathSegment b),
           includeProtocol = spreadProp (includeProtocol a) (includeProtocol b),
           protocol = spreadProp (protocol a) (protocol b),
           pathSeparator = spreadProp (pathSeparator a) (pathSeparator b),
           hashAlgorithm = spreadProp (hashAlgorithm a) (hashAlgorithm b),
           customHashFn = spreadProp (customHashFn a) (customHashFn b)\<rparr>)"

definition createOpts :: "jsstring \<Rightarrow> CreateShortUrlOptions option \<Rightarrow> CreateShortUrlOptions" where
  "createOpts domainName options =
     spreadCreateOptions (DEFAULT_CREATE_OPTIONS\<lparr>domain := Value domainName\<rparr>) options"

text \<open>The two built-in loops over \<^verbatim>\<open>longUrl.charCodeAt(i)\<close>, \<open>i\<close> from 0.\<close>

fun sdbm_loop :: "number \<Rightarrow> jsstring \<Rightarrow> number" where
  "sdbm_loop hash [] = hash"
| "sdbm_loop hash (char # rest) =
     sdbm_loop (charCode char + shiftLeft hash 6 + shiftLeft hash 16 - hash) rest"

fun djb2_loop :: "number \<Rightarrow> jsstring \<Rightarrow> number" where
  "djb2_loop hash [] = hash"
| "djb2_loop hash (char # rest) =
     djb2_loop (shiftLeft hash 5 + hash + charCode char) rest"

text \<open>
  \<^verbatim>\<open>opts.hashAlgorithm === "custom" && opts.customHashFn\<close>: a function value is
  truthy, \<^verbatim>\<open>undefined\<close> is not.
\<close>

definition customSelected :: "CreateShortUrlOptions \<Rightarrow> bool" where
  "customSelected opts \<longleftrightarrow>
     getProp (hashAlgorithm opts) = Some Custom
     \<and> \<not> Option.is_none (getProp (customHashFn opts))"

text \<open>The \<^verbatim>\<open>if\<close> chain that selects the algorithm.\<close>

definition computeHash :: "CreateShortUrlOptions \<Rightarrow> jsstring \<Rightarrow> number" where
  "computeHash opts longUrl =
     (if customSelected opts
      then the (getProp (customHashFn opts)) longUrl
      else if getProp (hashAlgorithm opts) = Some Sdbm
      then sdbm_loop 0 longUrl
      else djb2_loop 5381 longUrl)"

text \<open>\<^verbatim>\<open>const positiveHash = Math.abs(hash)\<close>, the identifier.\<close>

definition positiveHash :: "jsstring \<Rightarrow> jsstring \<Rightarrow> CreateShortUrlOptions option \<Rightarrow> number" where
  "positiveHash longUrl domainName options =
     \<bar>computeHash (createOpts domainName options) longUrl\<bar>"

text \<open>The short URL returned and the store after the call.\<close>

definition createShortUrl ::
    "jsstring \<Rightarrow> jsstring \<Rightarrow> CreateShortUrlOptions option \<Rightarrow> store \<Rightarrow> jsstring \<times> store" where
  "createShortUrl longUrl domainName options urlStorage =
     (let opts = createOpts domainName options;
          ident = positiveHash longUrl domainName options;
          urlStorage = storeUrlMapping ident longUrl urlStorage
      in (buildShortUrl ident (Options (ShortUrlOptions.truncate opts)), urlStorage))"

section \<open>Decoding a short URL (index.ts)\<close>

text \<open>\<^verbatim>\<open>shortUrl.replace(/^https?:\/\//, "")\<close>.\<close>

definition stripProtocol :: "jsstring \<Rightarrow> jsstring" where
  "stripProtocol shortUrl =
     (if take 8 shortUrl = lit ''https://'' then drop 8 shortUrl
      else if take 7 shortUrl = lit ''http://'' then drop 7 shortUrl
      else shortUrl)"

text \<open>\<^verbatim>\<open>s.split("/")\<close>: the pieces between the separators, never an empty array.\<close>

fun splitOn :: "code_unit \<Rightarrow> jsstring \<Rightarrow> jsstring list" where
  "splitOn sep [] = [[]]"
| "splitOn sep (c # cs) =
     (if c = sep then [] # splitOn sep cs
      else (case splitOn sep cs of
              [] \<Rightarrow> [[c]]
            | part # parts \<Rightarrow> (c # part) # parts))"

definition extractShortCode :: "jsstring \<Rightarrow> jsstring" where
  "extractShortCode shortUrl =
     (let urlWithoutProtocol = stripProtocol shortUrl;
          parts = splitOn (of_char CHR ''/'') urlWithoutProtocol
      in last parts)"

text \<open>
  The body of the \<^verbatim>\<open>try\<close> either throws (\<open>Inl\<close>) or returns; the \<^verbatim>\<open>catch\<close>
  turns every exception into \<^verbatim>\<open>undefined\<close>. The result type keeps the
  possibility of an exception leaving \<^verbatim>\<open>decodeUrl\<close>, so that its absence is a theorem.
\<close>

definition decodeUrl_try :: "jsstring \<Rightarrow> store \<Rightarrow> error + jsstring option" where
  "decodeUrl_try shortUrl urlStorage =
     (let shortCode = extractShortCode shortUrl
      in case decodeShortUrl shortCode of
           Inl e \<Rightarrow> Inl e
         | Inr ident \<Rightarrow> Inr (getOriginalUrl ident urlStorage))"

definition decodeUrl :: "jsstring \<Rightarrow> store \<Rightarrow> error + jsstring option" where
  "decodeUrl shortUrl urlStorage =
     (case decodeUrl_try shortUrl urlStorage of
        Inl e \<Rightarrow> Inr None
      | Inr r \<Rightarrow> Inr r)"

section \<open>Doubles\<close>

text \<open>
  Above \<open>2 ^ 53\<close> a double holds only the multiples of its unit in the last place:
  2 up to \<open>2 ^ 54\<close>, 4 up to \<open>2 ^ 55\<close>, and so on. \<open>ulp m\<close> is that unit
  for a magnitude \<open>m\<close>.
\<close>

function ulp :: "int \<Rightarrow> int" where
  "ulp m = (if m < 2 ^ 53 then 1 else 2 * ulp (m div 2))"
  by pat_completeness auto
termination
  by (relation "measure nat") auto

declare ulp.simps [simp del]

text \<open>
  The result of an addition or multiplication of doubles is the exact result rounded to
  the nearest double, a tie going to the double whose significand is even. Overflow to
  \<^verbatim>\<open>Infinity\<close>, which a short code can reach from 172 characters on, is not
  modelled.
\<close>

definition roundDouble :: "int \<Rightarrow> number" where
  "roundDouble r =
     (let m = \<bar>r\<bar>;
          u = ulp m;
          below = m div u * u;
          rest = m mod u;
          nearest = (if 2 * rest < u then below
                     else if u < 2 * rest then below + u
                     else if even (m div u) then below else below + u)
      in sgn r * nearest)"

text \<open>
  The loop of \<^verbatim>\<open>decodeShortUrl\<close> as the doubles compute it:
  \<^verbatim>\<open>id = id * BASE + charIndex\<close> rounds the product and then the sum.
  \<open>decodeShortUrl\<close> above is this function without the rounding, and equal to it on
  short codes of up to 8 characters (lemma \<open>decodeShortUrl_double_short\<close>).
\<close>

fun decodeShortUrl_double_loop :: "number \<Rightarrow> jsstring \<Rightarrow> error + number" where
  "decodeShortUrl_double_loop ident [] = Inr ident"
| "decodeShortUrl_double_loop ident (char # rest) =
     (let charIndex = indexOf CHARACTERS char
      in if charIndex = - 1 then Inl (invalidCharacter char)
         else decodeShortUrl_double_loop
                (roundDouble (roundDouble (ident * BASE) + charIndex)) rest)"

definition decodeShortUrl_double :: "jsstring \<Rightarrow> error + number" where
  "decodeShortUrl_double shortCode = decodeShortUrl_double_loop 0 shortCode"

section \<open>A custom hash function with state\<close>

text \<open>
  A custom hash function may keep state of its own between calls, a counter for
  instance: given the string and its state it returns the hash and its next state.
\<close>

type_synonym 'w statefulHashFn = "jsstring \<Rightarrow> 'w \<Rightarrow> number \<times> 'w"

text \<open>
  \<^verbatim>\<open>{ ...opt, customHashFn: fn }\<close> as one call sees it when the state of \<open>fn\<close> is
  \<open>w\<close>.
\<close>

definition optionsWith ::
    "CreateShortUrlOptions \<Rightarrow> 'w statefulHashFn \<Rightarrow> 'w \<Rightarrow> CreateShortUrlOptions" where
  "optionsWith opt fn w = opt\<lparr>customHashFn := Value (\<lambda>url. fst (fn url w))\<rparr>"

text \<open>
  \<^verbatim>\<open>createShortUrl(longUrl, domain, { ...opt, customHashFn: fn })\<close>: the short URL,
  the state of \<open>fn\<close> after the call (\<open>fn\<close> runs once, and only when the custom
  branch is taken) and the store after the call.
\<close>

definition createShortUrl_stateful ::
    "jsstring \<Rightarrow> jsstring \<Rightarrow> CreateShortUrlOptions \<Rightarrow> 'w statefulHashFn \<Rightarrow> 'w \<Rightarrow> store
       \<Rightarrow> jsstring \<times> 'w \<times> store" where
  "createShortUrl_stateful longUrl domainName opt fn w urlStorage =
     (let options = Some (optionsWith opt fn w);
          result = createShortUrl longUrl domainName options urlStorage;
          after = (if customSelected (createOpts domainName options)
                   then snd (fn longUrl w) else w)
      in (fst result, after, snd result))"

text \<open>\<^verbatim>\<open>let n = 0; const fn = () => ++n\<close>, and the options \<^verbatim>\<open>{ hashAlgorithm: "custom" }\<close>.\<close>

definition counterHashFn :: "int statefulHashFn" where
  "counterHashFn url n = (n + 1, n + 1)"

definition customOnly :: CreateShortUrlOptions where
  "customOnly =
     \<lparr>domain = Absent, includeRedirectPath = Absent, redirectPathSegment = Absent,
      includeProtocol = Absent, protocol = Absent, pathSeparator = Absent,
      hashAlgorithm = Value Custom, customHashFn = Absent\<rparr>"

section \<open>The statements of the specification\<close>

text \<open>
  The DJB2 hash as the specification words it: seed 5381, \<open>hash * 33 + code\<close>,
  wrapped to 32 bits after every step.
\<close>

definition djb2_wrapped :: "jsstring \<Rightarrow> 32 word" where
  "djb2_wrapped s = foldl (\<lambda>hash char. hash * 33 + ucast char) 5381 s"

text \<open>The digit value of a character: its position in the alphabet, from 0.\<close>

definition digitValue :: "code_unit \<Rightarrow> number" where
  "digitValue char = int (length (takeWhile (\<lambda>x. x \<noteq> char) CHARACTERS))"

text \<open>
  The concatenation \<^verbatim>\<open>[protocol + "://"]? + domain + [separator + redirectSegment]? +
  separator + shortCode\<close> over the merged options, each optional part present exactly
  when its inclusion is enabled.
\<close>

definition claimedConcatenation :: "ShortUrlOptions \<Rightarrow> jsstring \<Rightarrow> jsstring" where
  "claimedConcatenation opts shortCode =
     (if truthyBool (getProp (includeProtocol opts))
      then toString (getProp (protocol opts)) @ lit ''://'' else [])
     @ toString (getProp (domain opts))
     @ (if truthyBool (getProp (includeRedirectPath opts))
        then toString (getProp (pathSeparator opts)) @ toString (getProp (redirectPathSegment opts))
        else [])
     @ toString (getProp (pathSeparator opts)) @ shortCode"

text \<open>
  The same concatenation, each optional part present exactly when its inclusion is
  enabled and its string is not empty.
\<close>

definition amendedConcatenation :: "ShortUrlOptions \<Rightarrow> jsstring \<Rightarrow> jsstring" where
  "amendedConcatenation opts shortCode =
     (if truthyBool (getProp (includeProtocol opts)) \<and> truthyString (getProp (protocol opts))
      then toString (getProp (protocol opts)) @ lit ''://'' else [])
     @ toString (getProp (domain opts))
     @ (if truthyBool (getProp (includeRedirectPath opts))
           \<and> truthyString (getProp (redirectPathSegment opts))
        then toString (getProp (pathSeparator opts)) @ toString (getProp (redirectPathSegment opts))
        else [])
     @ toString (getProp (pathSeparator opts)) @ shortCode"

section \<open>The codec: lemmas and claims\<close>

lemma BASE_62: "BASE = 62"
  by (simp add: BASE_def CHARACTERS_def lit_def)

lemma length_CHARACTERS: "length CHARACTERS = 62"
  by (simp add: CHARACTERS_def lit_def)

lemma distinct_CHARACTERS: "distinct CHARACTERS"
  by (simp add: CHARACTERS_def lit_def)

lemma CHARACTERS_0: "[CHARACTERS ! 0] = lit ''A''"
  by (simp add: CHARACTERS_def lit_def)

lemma indexOf_range:
  "indexOf xs c = - 1 \<or> (0 \<le> indexOf xs c \<and> indexOf xs c < int (length xs))"
  by (induction xs) (auto simp: Let_def)

lemma indexOf_absent: "indexOf xs c = - 1 \<longleftrightarrow> c \<notin> set xs"
proof (induction xs)
  case Nil
  show ?case by simp
next
  case (Cons x xs)
  from indexOf_range [of xs c] Cons show ?case
    by (auto simp: Let_def)
qed

lemma indexOf_nth:
  "distinct xs \<Longrightarrow> k < length xs \<Longrightarrow> indexOf xs (xs ! k) = int k"
proof (induction xs arbitrary: k)
  case Nil
  then show ?case by simp
next
  case (Cons x xs)
  show ?case
  proof (cases k)
    case 0
    then show ?thesis by simp
  next
    case (Suc j)
    with Cons.prems have j: "j < length xs" and d: "distinct xs" and nx: "xs ! j \<noteq> x"
      by auto
    from Cons.IH [OF d j] nx Suc show ?thesis
      by (auto simp: Let_def)
  qed
qed

lemma nth_indexOf:
  "c \<in> set xs \<Longrightarrow> xs ! nat (indexOf xs c) = c"
proof (induction xs)
  case Nil
  then show ?case by simp
next
  case (Cons x xs)
  show ?case
  proof (cases "x = c")
    case True
    then show ?thesis by simp
  next
    case False
    with Cons.prems have mem: "c \<in> set xs" by simp
    then have "indexOf xs c \<noteq> - 1" by (simp add: indexOf_absent)
    with indexOf_range [of xs c] have "0 \<le> indexOf xs c" by auto
    with False Cons.IH [OF mem] \<open>indexOf xs c \<noteq> - 1\<close> show ?thesis
      by (simp add: Let_def nat_add_distrib)
  qed
qed

lemma indexOf_digit:
  assumes "0 \<le> d" "d < 62"
  shows "indexOf CHARACTERS (CHARACTERS ! nat d) = d"
  using indexOf_nth [OF distinct_CHARACTERS, of "nat d"] assms
  by (simp add: length_CHARACTERS)

lemma encodeId_loop_nonpos: "num \<le> 0 \<Longrightarrow> encodeId_loop shortUrl num = shortUrl"
  by (simp add: encodeId_loop.simps)

lemma encodeId_loop_pos:
  "0 < num \<Longrightarrow> encodeId_loop shortUrl num
     = encodeId_loop (CHARACTERS ! nat (num mod 62) # shortUrl) (num div 62)"
  by (subst encodeId_loop.simps) (simp add: BASE_62)

lemma encodeId_loop_length: "length shortUrl \<le> length (encodeId_loop shortUrl num)"
proof (induction shortUrl num rule: encodeId_loop.induct)
  case (1 shortUrl num)
  show ?case
  proof (cases "0 < num")
    case True
    from "1.IH" [OF True] show ?thesis
      by (subst encodeId_loop.simps) (simp add: True)
  next
    case False
    then show ?thesis by (simp add: encodeId_loop_nonpos)
  qed
qed

lemma encodeId_loop_nonempty: "0 < num \<Longrightarrow> encodeId_loop shortUrl num \<noteq> []"
proof -
  assume pos: "0 < num"
  have "length (CHARACTERS ! nat (num mod 62) # shortUrl)
          \<le> length (encodeId_loop (CHARACTERS ! nat (num mod 62) # shortUrl) (num div 62))"
    by (rule encodeId_loop_length)
  with pos show ?thesis by (auto simp: encodeId_loop_pos)
qed

lemma decode_encodeId_loop:
  "0 \<le> num \<Longrightarrow>
     decodeShortUrl_loop 0 (encodeId_loop shortUrl num) = decodeShortUrl_loop num shortUrl"
proof (induction shortUrl num rule: encodeId_loop.induct)
  case (1 shortUrl num)
  show ?case
  proof (cases "0 < num")
    case True
    let ?d = "num mod 62"
    have d: "0 \<le> ?d" "?d < 62" by simp_all
    then have nd: "?d \<noteq> - 1" by linarith
    have q: "0 \<le> num div BASE" using True by (simp add: BASE_62)
    have "decodeShortUrl_loop 0 (encodeId_loop shortUrl num)
            = decodeShortUrl_loop (num div 62) (CHARACTERS ! nat ?d # shortUrl)"
      using "1.IH" [OF True q] True by (simp add: encodeId_loop_pos BASE_62)
    also have "\<dots> = decodeShortUrl_loop (num div 62 * 62 + ?d) shortUrl"
      using d nd by (simp add: indexOf_digit BASE_62 Let_def)
    finally show ?thesis by simp
  next
    case False
    with "1.prems" have "num = 0" by simp
    then show ?thesis by (simp add: encodeId_loop_nonpos)
  qed
qed

lemma decode_encodeId: "0 \<le> n \<Longrightarrow> decodeShortUrl (encodeId n) = Inr n"
proof (cases "n = 0")
  case True
  then show ?thesis
    by (simp add: decodeShortUrl_def encodeId_def encodeId_loop_nonpos CHARACTERS_def lit_def BASE_def)
next
  case False
  assume "0 \<le> n"
  with False have pos: "0 < n" by simp
  then have "encodeId n = encodeId_loop [] n"
    by (simp add: encodeId_def encodeId_loop_nonempty)
  with decode_encodeId_loop [of n "[]"] pos show ?thesis
    by (simp add: decodeShortUrl_def)
qed

text \<open>
  Claim C6: \<^verbatim>\<open>encodeId(0)\<close> is \<^verbatim>\<open>"A"\<close>, the first character of the alphabet, and
  for every non-negative integer \<open>n\<close> \<^verbatim>\<open>encodeId(n)\<close> is not the empty string.
\<close>

theorem encodeId_zero_nonempty:
  "encodeId 0 = lit ''A'' \<and> (0 \<le> n \<longrightarrow> encodeId n \<noteq> [])"
  by (simp add: encodeId_def encodeId_loop_nonpos CHARACTERS_0 Let_def lit_def)

text \<open>The theorem of C6 at \<open>n = 12345\<close>.\<close>

theorem encodeId_zero_nonempty_witness:
  "encodeId 0 = lit ''A'' \<and> (0::int) \<le> 12345 \<and> encodeId 12345 \<noteq> []"
  using encodeId_zero_nonempty [of 12345] by simp

text \<open>
  Claim C9: for every negative \<open>n\<close>, \<^verbatim>\<open>encodeId(n)\<close> is \<^verbatim>\<open>"A"\<close>: the loop, guarded
  by \<open>num > 0\<close>, never runs, and the empty result is replaced by the first character.
\<close>

theorem encodeId_negative: "n < 0 \<Longrightarrow> encodeId n = lit ''A''"
  by (simp add: encodeId_def encodeId_loop_nonpos CHARACTERS_0)

text \<open>The theorem of C9 at \<open>n = -5\<close>.\<close>

theorem encodeId_negative_witness: "(- 5 :: int) < 0 \<and> encodeId (- 5) = lit ''A''"
  using encodeId_negative [of "- 5"] by simp

text \<open>
  Claim C3: for every integer \<open>n\<close> with \<open>0 \<le> n < 2 ^ 31\<close>, decoding the encoding of
  \<open>n\<close> returns \<open>n\<close>.
\<close>

theorem decode_encode_roundtrip:
  "0 \<le> n \<Longrightarrow> n < 2 ^ 31 \<Longrightarrow> decodeShortUrl (encodeId n) = Inr n"
  by (rule decode_encodeId)

text \<open>The theorem of C3 at \<open>n = 12345\<close>.\<close>

theorem decode_encode_roundtrip_witness:
  "(0::int) \<le> 12345 \<and> (12345::int) < 2 ^ 31 \<and> decodeShortUrl (encodeId 12345) = Inr 12345"
  using decode_encode_roundtrip [of 12345] by simp

section \<open>The hash: lemmas and claims\<close>

lemma shiftLeft_word: "(word_of_int (shiftLeft h k) :: 32 word) = push_bit (k mod 32) (word_of_int h)"
  by (simp add: shiftLeft_def)

lemma shiftLeft_range: "- (2 ^ 31) \<le> shiftLeft h k \<and> shiftLeft h k < 2 ^ 31"
  using sint_ge [of "push_bit (k mod 32) (word_of_int h :: 32 word)"]
        sint_lt [of "push_bit (k mod 32) (word_of_int h :: 32 word)"]
  by (simp add: shiftLeft_def)

lemma charCode_range: "0 \<le> charCode c \<and> charCode c \<le> 65535"
  using uint_lt2p [of c] by (simp add: charCode_def)

lemma charCode_word: "(word_of_int (charCode c) :: 32 word) = ucast c"
  by (simp add: charCode_def)

lemma djb2_loop_word:
  "(word_of_int (djb2_loop h s) :: 32 word)
     = foldl (\<lambda>hash char. hash * 33 + ucast char) (word_of_int h) s"
proof (induction s arbitrary: h)
  case Nil
  show ?case by simp
next
  case (Cons c s)
  let ?f = "\<lambda>(hash :: 32 word) (char :: code_unit). hash * 33 + ucast char"
  let ?h = "shiftLeft h 5 + h + charCode c"
  have step: "(word_of_int ?h :: 32 word) = word_of_int h * 33 + ucast c"
    by (simp add: shiftLeft_word charCode_word push_bit_eq_mult)
  have "foldl ?f (word_of_int h) (c # s) = foldl ?f (word_of_int ?h) s"
    by (simp only: foldl_Cons step)
  moreover have "word_of_int (djb2_loop h (c # s)) = foldl ?f (word_of_int ?h) s"
    using Cons.IH [of ?h] by (simp only: djb2_loop.simps)
  ultimately show ?case by (simp only:)
qed

lemma djb2_magnitude:
  "\<bar>djb2_loop h s\<bar> \<le> \<bar>h\<bar> + int (length s) * (2 ^ 31 + 65535)"
proof (induction s arbitrary: h)
  case Nil
  show ?case by simp
next
  case (Cons c s)
  let ?h = "shiftLeft h 5 + h + charCode c"
  have "\<bar>?h\<bar> \<le> \<bar>h\<bar> + (2 ^ 31 + 65535)"
    using shiftLeft_range [of h 5] charCode_range [of c] by linarith
  with Cons.IH [of ?h] show ?case by (simp add: algebra_simps)
qed

lemma sdbm_magnitude:
  "\<bar>sdbm_loop h s\<bar> \<le> \<bar>h\<bar> + int (length s) * (2 ^ 32 + 65535)"
proof (induction s arbitrary: h)
  case Nil
  show ?case by simp
next
  case (Cons c s)
  let ?h = "charCode c + shiftLeft h 6 + shiftLeft h 16 - h"
  have "\<bar>?h\<bar> \<le> \<bar>h\<bar> + (2 ^ 32 + 65535)"
    using shiftLeft_range [of h 6] shiftLeft_range [of h 16] charCode_range [of c]
    by simp linarith
  with Cons.IH [of ?h] show ?case by (simp add: algebra_simps)
qed

lemma createOpts_None: "createOpts d None = DEFAULT_CREATE_OPTIONS\<lparr>domain := Value d\<rparr>"
  by (simp add: createOpts_def spreadCreateOptions_def)

lemma computeHash_default: "computeHash (createOpts d None) s = djb2_loop 5381 s"
  by (simp add: createOpts_None computeHash_def customSelected_def DEFAULT_CREATE_OPTIONS_def
      ShortUrlOptions.defs CreateShortUrlOptions.defs)

text \<open>
  Claim C1 as stated fails on the long URL of the specification's own example: with the
  default options the hash that \<^verbatim>\<open>createShortUrl\<close> computes is \<open>-6813267495\<close>,
  outside the signed 32-bit range, where the 32-bit DJB2 hash is \<open>1776667097\<close>.
\<close>

theorem djb2_counterexample:
  "computeHash (createOpts (lit ''short.url'') None) (lit ''https://example.com/very/long/path'')
     = - 6813267495
   \<and> \<not> (- (2 ^ 31) \<le> computeHash (createOpts (lit ''short.url'') None)
                         (lit ''https://example.com/very/long/path'')
        \<and> computeHash (createOpts (lit ''short.url'') None)
             (lit ''https://example.com/very/long/path'') < 2 ^ 31)
   \<and> sint (djb2_wrapped (lit ''https://example.com/very/long/path'')) = 1776667097"
  by (simp add: computeHash_default lit_def shiftLeft_def charCode_def djb2_wrapped_def)

lemma computeHash_djb2:
  "\<not> customSelected opts \<Longrightarrow> getProp (hashAlgorithm opts) \<noteq> Some Sdbm \<Longrightarrow>
     computeHash opts s = djb2_loop 5381 s"
  by (simp add: computeHash_def)

lemma djb2_loop_snoc:
  "djb2_loop h (s @ [char]) = shiftLeft (djb2_loop h s) 5 + djb2_loop h s + charCode char"
  by (induction s arbitrary: h) simp_all

lemma default_not_custom: "\<not> customSelected (createOpts d None)"
  by (simp add: createOpts_None customSelected_def DEFAULT_CREATE_OPTIONS_def
      ShortUrlOptions.defs CreateShortUrlOptions.defs)

lemma default_not_sdbm: "getProp (hashAlgorithm (createOpts d None)) \<noteq> Some Sdbm"
  by (simp add: createOpts_None DEFAULT_CREATE_OPTIONS_def
      ShortUrlOptions.defs CreateShortUrlOptions.defs)

text \<open>
  Where the doubles of the program are exact: the built-in hashes stay below \<open>2 ^ 53\<close>
  in magnitude on inputs of up to some millions of characters.
\<close>

lemma djb2_exact:
  assumes "length s \<le> 4000000"
  shows "\<bar>djb2_loop 5381 s\<bar> < 2 ^ 53"
proof -
  have "int (length s) * (2 ^ 31 + 65535) \<le> 4000000 * (2 ^ 31 + 65535)"
    using assms by (intro mult_right_mono) simp_all
  with djb2_magnitude [of 5381 s] show ?thesis by simp
qed

lemma sdbm_exact:
  assumes "length s \<le> 2000000"
  shows "\<bar>sdbm_loop 0 s\<bar> < 2 ^ 53"
proof -
  have "int (length s) * (2 ^ 32 + 65535) \<le> 2000000 * (2 ^ 32 + 65535)"
    using assms by (intro mult_right_mono) simp_all
  with sdbm_magnitude [of 0 s] show ?thesis by simp
qed

text \<open>
  Claim C1, amended: for every input string of at most 4,000,000 characters, whenever
  \<^verbatim>\<open>createShortUrl\<close> takes the DJB2 branch (no custom function selected, algorithm
  not \<^verbatim>\<open>"sdbm"\<close>), the hash starts from the seed 5381 and every character code
  updates it by \<open>(hash << 5) + hash + code\<close>, where only the shift is wrapped to a
  signed 32-bit integer and the sum is not. The accumulator is therefore congruent
  modulo \<open>2 ^ 32\<close> to the 32-bit DJB2 hash \<open>hash * 33 + code\<close>; after \<open>n\<close>
  characters its magnitude is at most \<open>5381 + n * (2 ^ 31 + 65535)\<close>, which is below
  \<open>2 ^ 53\<close>, and it can leave the signed 32-bit range. The accumulators of the loop
  are the hashes of the prefixes \<open>take i s\<close>.
\<close>

theorem djb2_unwrapped_sum:
  assumes "\<not> customSelected opts" and "getProp (hashAlgorithm opts) \<noteq> Some Sdbm"
    and "length s \<le> 4000000"
  shows "computeHash opts [] = 5381
     \<and> (\<forall>i < length s.
           computeHash opts (take (Suc i) s)
             = shiftLeft (computeHash opts (take i s)) 5 + computeHash opts (take i s)
               + charCode (s ! i))
     \<and> word_of_int (computeHash opts s) = djb2_wrapped s
     \<and> \<bar>computeHash opts s\<bar> \<le> 5381 + int (length s) * (2 ^ 31 + 65535)
     \<and> \<bar>computeHash opts s\<bar> < 2 ^ 53"
proof -
  note djb2 = computeHash_djb2 [OF assms(1,2)]
  have seed: "computeHash opts [] = 5381" by (simp add: djb2)
  have step: "\<forall>i < length s.
           computeHash opts (take (Suc i) s)
             = shiftLeft (computeHash opts (take i s)) 5 + computeHash opts (take i s)
               + charCode (s ! i)"
    by (simp add: djb2 take_Suc_conv_app_nth djb2_loop_snoc)
  have cong: "word_of_int (computeHash opts s) = djb2_wrapped s"
    using djb2_loop_word [of 5381 s] by (simp add: djb2 djb2_wrapped_def)
  have bound: "\<bar>computeHash opts s\<bar> \<le> 5381 + int (length s) * (2 ^ 31 + 65535)"
    using djb2_magnitude [of 5381 s] by (simp add: djb2)
  have exact: "\<bar>computeHash opts s\<bar> < 2 ^ 53"
    using djb2_exact [OF assms(3)] by (simp add: djb2)
  from seed step cong bound exact show ?thesis by (intro conjI)
qed

text \<open>The theorem of C1 at the default options and the long URL of the example.\<close>

theorem djb2_unwrapped_sum_witness:
  "\<not> customSelected (createOpts (lit ''short.url'') None)
   \<and> getProp (hashAlgorithm (createOpts (lit ''short.url'') None)) \<noteq> Some Sdbm
   \<and> length (lit ''https://example.com/very/long/path'') \<le> 4000000
   \<and> computeHash (createOpts (lit ''short.url'') None) [] = 5381
   \<and> (word_of_int (computeHash (createOpts (lit ''short.url'') None)
                      (lit ''https://example.com/very/long/path'')) :: 32 word)
       = djb2_wrapped (lit ''https://example.com/very/long/path'')
   \<and> \<bar>computeHash (createOpts (lit ''short.url'') None)
         (lit ''https://example.com/very/long/path'')\<bar>
       \<le> 5381 + int (length (lit ''https://example.com/very/long/path'')) * (2 ^ 31 + 65535)"
proof -
  have len: "length (lit ''https://example.com/very/long/path'') \<le> 4000000"
    by (simp add: lit_def)
  from djb2_unwrapped_sum
         [OF default_not_custom default_not_sdbm len, of "lit ''short.url''"]
       default_not_custom [of "lit ''short.url''"] default_not_sdbm [of "lit ''short.url''"] len
  show ?thesis by simp
qed

subsection \<open>The identifier\<close>

lemma positiveHash_nonneg: "0 \<le> positiveHash l d opt"
  by (simp add: positiveHash_def)

lemma builtin_magnitude:
  assumes "\<not> customSelected opts"
  shows "\<bar>computeHash opts l\<bar> \<le> 5381 + int (length l) * (2 ^ 32 + 65535)"
proof (cases "getProp (hashAlgorithm opts) = Some Sdbm")
  case True
  with assms have "computeHash opts l = sdbm_loop 0 l" by (simp add: computeHash_def)
  with sdbm_magnitude [of 0 l] show ?thesis by simp
next
  case False
  with assms have "computeHash opts l = djb2_loop 5381 l" by (simp add: computeHash_def)
  moreover have "int (length l) * (2 ^ 31 + 65535) \<le> int (length l) * (2 ^ 32 + 65535)"
    by (rule mult_left_mono) simp_all
  ultimately show ?thesis using djb2_magnitude [of 5381 l] by simp
qed

text \<open>
  Claim C2 as stated fails on the same long URL with the default algorithm: the
  identifier is \<open>6813267495\<close>, above \<open>2 ^ 31\<close>.
\<close>

theorem identifier_range_counterexample:
  "\<not> (0 \<le> positiveHash (lit ''https://example.com/very/long/path'') (lit ''short.url'') None
      \<and> positiveHash (lit ''https://example.com/very/long/path'') (lit ''short.url'') None
          \<le> 2 ^ 31)"
  by (simp add: positiveHash_def computeHash_default lit_def shiftLeft_def charCode_def)

text \<open>
  Claim C2, amended: for every input string of at most 2,000,000 characters and each of
  the two built-in hash algorithms, the identifier is a non-negative integer, at most
  \<open>5381 + n * (2 ^ 32 + 65535)\<close> on an input of \<open>n\<close> characters and so below
  \<open>2 ^ 53\<close>. It need not lie within \<open>[0, 2 ^ 31]\<close>.
\<close>

theorem identifier_nonneg_bounded:
  assumes "\<not> customSelected (createOpts d opt)" and "length l \<le> 2000000"
  shows "0 \<le> positiveHash l d opt
     \<and> positiveHash l d opt \<le> 5381 + int (length l) * (2 ^ 32 + 65535)
     \<and> positiveHash l d opt < 2 ^ 53"
proof -
  have b: "positiveHash l d opt \<le> 5381 + int (length l) * (2 ^ 32 + 65535)"
    using builtin_magnitude [OF assms(1), of l] by (simp add: positiveHash_def)
  have "int (length l) * (2 ^ 32 + 65535) \<le> 2000000 * (2 ^ 32 + 65535)"
    using assms(2) by (intro mult_right_mono) simp_all
  with b have "positiveHash l d opt < 2 ^ 53" by simp
  with b positiveHash_nonneg [of l d opt] show ?thesis by simp
qed

text \<open>The theorem of C2 at the long URL of the example, default options.\<close>

theorem identifier_nonneg_bounded_witness:
  "\<not> customSelected (createOpts (lit ''short.url'') None)
   \<and> length (lit ''https://example.com/very/long/path'') \<le> 2000000
   \<and> positiveHash (lit ''https://example.com/very/long/path'') (lit ''short.url'') None
        = 6813267495
   \<and> (6813267495 :: int)
        \<le> 5381 + int (length (lit ''https://example.com/very/long/path'')) * (2 ^ 32 + 65535)"
proof -
  have v: "positiveHash (lit ''https://example.com/very/long/path'') (lit ''short.url'') None
             = 6813267495"
    by (simp add: positiveHash_def computeHash_default lit_def shiftLeft_def charCode_def)
  have len: "length (lit ''https://example.com/very/long/path'') \<le> 2000000"
    by (simp add: lit_def)
  from identifier_nonneg_bounded
         [OF default_not_custom len, of "lit ''short.url''"]
       default_not_custom [of "lit ''short.url''"] v len
  show ?thesis by simp
qed

subsection \<open>decodeShortUrl\<close>

lemma digitValue_indexOf: "c \<in> set xs \<Longrightarrow> indexOf xs c = int (length (takeWhile (\<lambda>x. x \<noteq> c) xs))"
proof (induction xs)
  case Nil
  then show ?case by simp
next
  case (Cons x xs)
  show ?case
  proof (cases "x = c")
    case True
    then show ?thesis by simp
  next
    case False
    with Cons.prems have mem: "c \<in> set xs" by simp
    then have "indexOf xs c \<noteq> - 1" by (simp add: indexOf_absent)
    with False Cons.IH [OF mem] show ?thesis by (simp add: Let_def)
  qed
qed

lemma decodeShortUrl_loop_valid:
  "set s \<subseteq> set CHARACTERS \<Longrightarrow>
     decodeShortUrl_loop ident s = Inr (foldl (\<lambda>ident char. ident * 62 + digitValue char) ident s)"
proof (induction s arbitrary: ident)
  case Nil
  show ?case by simp
next
  case (Cons c s)
  then have mem: "c \<in> set CHARACTERS" and rest: "set s \<subseteq> set CHARACTERS" by simp_all
  from mem have ne: "indexOf CHARACTERS c \<noteq> - 1" by (simp add: indexOf_absent)
  from mem have dv: "indexOf CHARACTERS c = digitValue c"
    by (simp add: digitValue_def digitValue_indexOf)
  from Cons.IH [OF rest, of "ident * 62 + digitValue c"] ne dv show ?case
    by (simp add: Let_def BASE_62)
qed

lemma decodeShortUrl_loop_invalid:
  "find (\<lambda>c. c \<notin> set CHARACTERS) s = Some c \<Longrightarrow>
     decodeShortUrl_loop ident s = Inl (invalidCharacter c)"
proof (induction s arbitrary: ident)
  case Nil
  then show ?case by simp
next
  case (Cons x s)
  show ?case
  proof (cases "x \<in> set CHARACTERS")
    case True
    then have "indexOf CHARACTERS x \<noteq> - 1" by (simp add: indexOf_absent)
    moreover from True Cons.prems have "find (\<lambda>c. c \<notin> set CHARACTERS) s = Some c" by simp
    ultimately show ?thesis using Cons.IH by (simp add: Let_def)
  next
    case False
    then have "indexOf CHARACTERS x = - 1" by (simp add: indexOf_absent)
    moreover from False Cons.prems have "x = c" by simp
    ultimately show ?thesis by (simp add: Let_def)
  qed
qed

lemma decodeShortUrl_range:
  "decodeShortUrl_loop ident s = Inr v \<Longrightarrow> 0 \<le> ident \<Longrightarrow>
     ident * 62 ^ length s \<le> v \<and> v < (ident + 1) * 62 ^ length s"
proof (induction s arbitrary: ident)
  case Nil
  then show ?case by simp
next
  case (Cons c s)
  let ?i = "indexOf CHARACTERS c"
  from Cons.prems(1) have ne: "?i \<noteq> - 1"
    by (auto simp: Let_def split: if_splits)
  with indexOf_range [of CHARACTERS c] have i: "0 \<le> ?i" "?i < 62"
    by (auto simp: length_CHARACTERS)
  from Cons.prems(1) ne have run: "decodeShortUrl_loop (ident * 62 + ?i) s = Inr v"
    by (simp add: Let_def BASE_62)
  from i Cons.prems(2) have nn: "0 \<le> ident * 62 + ?i" by simp
  from Cons.IH [OF run nn]
  have lo: "(ident * 62 + ?i) * 62 ^ length s \<le> v"
    and hi: "v < (ident * 62 + ?i + 1) * 62 ^ length s" by simp_all
  have p: "(0::int) \<le> 62 ^ length s" by simp
  have "ident * 62 * 62 ^ length s \<le> (ident * 62 + ?i) * 62 ^ length s"
    using i(1) p by (intro mult_right_mono) simp_all
  then have a: "ident * 62 ^ length (c # s) \<le> (ident * 62 + ?i) * 62 ^ length s"
    by (simp add: mult.assoc)
  have "(ident * 62 + ?i + 1) * 62 ^ length s \<le> ((ident + 1) * 62) * 62 ^ length s"
    using i(2) p by (intro mult_right_mono) simp_all
  then have b: "(ident * 62 + ?i + 1) * 62 ^ length s \<le> (ident + 1) * 62 ^ length (c # s)"
    by (simp add: mult.assoc)
  from a lo have "ident * 62 ^ length (c # s) \<le> v" by (rule order_trans)
  moreover from hi b have "v < (ident + 1) * 62 ^ length (c # s)" by (rule less_le_trans)
  ultimately show ?case by (rule conjI)
qed

text \<open>A short code of up to 8 characters decodes exactly in doubles.\<close>

lemma decodeShortUrl_exact:
  assumes "decodeShortUrl s = Inr v" "length s \<le> 8"
  shows "0 \<le> v \<and> v < 2 ^ 53"
proof -
  from decodeShortUrl_range [of 0 s v] assms(1)
  have r: "0 \<le> v" "v < 62 ^ length s" by (simp_all add: decodeShortUrl_def)
  have "(62::int) ^ length s \<le> 62 ^ 8"
    using assms(2) by (intro power_increasing) simp_all
  with r show ?thesis by simp
qed

subsection \<open>decodeShortUrl in doubles\<close>

lemma ulp_small: "m < 2 ^ 53 \<Longrightarrow> ulp m = 1"
  by (simp add: ulp.simps)

lemma roundDouble_exact: "\<bar>r\<bar> < 2 ^ 53 \<Longrightarrow> roundDouble r = r"
  by (simp add: roundDouble_def ulp_small Let_def abs_sgn mult.commute)

lemma ulp_next: "2 ^ 53 \<le> m \<Longrightarrow> m < 2 ^ 54 \<Longrightarrow> ulp m = 2"
  by (subst ulp.simps) (simp add: ulp_small)

lemma ulp_last_step: "ulp 13537086546263490 = 2" "ulp 13537086546263551 = 2"
  by (simp_all add: ulp_next)

lemma roundDouble_last_step:
  "roundDouble 13537086546263490 = 13537086546263490"
  "roundDouble 13537086546263551 = 13537086546263552"
  by (simp_all add: roundDouble_def ulp_last_step Let_def)

lemma digitValue_nonneg: "0 \<le> digitValue c"
  by (simp add: digitValue_def)

lemma accumulate_ge:
  "0 \<le> ident \<Longrightarrow> ident \<le> foldl (\<lambda>ident char. ident * 62 + digitValue char) ident s"
proof (induction s arbitrary: ident)
  case Nil
  show ?case by simp
next
  case (Cons c s)
  have step: "ident \<le> ident * 62 + digitValue c"
    using Cons.prems digitValue_nonneg [of c] by simp
  with Cons.prems have "0 \<le> ident * 62 + digitValue c" by simp
  from Cons.IH [OF this] step show ?case by simp
qed

lemma decodeShortUrl_double_loop_invalid:
  "find (\<lambda>c. c \<notin> set CHARACTERS) s = Some c \<Longrightarrow>
     decodeShortUrl_double_loop ident s = Inl (invalidCharacter c)"
proof (induction s arbitrary: ident)
  case Nil
  then show ?case by simp
next
  case (Cons x s)
  show ?case
  proof (cases "x \<in> set CHARACTERS")
    case True
    then have "indexOf CHARACTERS x \<noteq> - 1" by (simp add: indexOf_absent)
    moreover from True Cons.prems have "find (\<lambda>c. c \<notin> set CHARACTERS) s = Some c" by simp
    ultimately show ?thesis using Cons.IH by (simp add: Let_def)
  next
    case False
    then have "indexOf CHARACTERS x = - 1" by (simp add: indexOf_absent)
    moreover from False Cons.prems have "x = c" by simp
    ultimately show ?thesis by (simp add: Let_def)
  qed
qed

lemma decodeShortUrl_double_loop_returns:
  "set s \<subseteq> set CHARACTERS \<Longrightarrow> \<exists>v. decodeShortUrl_double_loop ident s = Inr v"
proof (induction s arbitrary: ident)
  case Nil
  show ?case by simp
next
  case (Cons c s)
  then have "indexOf CHARACTERS c \<noteq> - 1" by (simp add: indexOf_absent)
  moreover from Cons.prems have "set s \<subseteq> set CHARACTERS" by simp
  ultimately show ?case using Cons.IH by (simp add: Let_def)
qed

lemma decodeShortUrl_double_loop_exact:
  "set s \<subseteq> set CHARACTERS \<Longrightarrow> 0 \<le> ident \<Longrightarrow>
   foldl (\<lambda>ident char. ident * 62 + digitValue char) ident s < 2 ^ 53 \<Longrightarrow>
     decodeShortUrl_double_loop ident s
       = Inr (foldl (\<lambda>ident char. ident * 62 + digitValue char) ident s)"
proof (induction s arbitrary: ident)
  case Nil
  show ?case by simp
next
  case (Cons c s)
  let ?next = "ident * 62 + digitValue c"
  from Cons.prems(1) have mem: "c \<in> set CHARACTERS" and rest: "set s \<subseteq> set CHARACTERS"
    by simp_all
  from mem have ne: "indexOf CHARACTERS c \<noteq> - 1" by (simp add: indexOf_absent)
  from mem have dv: "indexOf CHARACTERS c = digitValue c"
    by (simp add: digitValue_def digitValue_indexOf)
  have d: "0 \<le> digitValue c" by (rule digitValue_nonneg)
  with Cons.prems(2) have nn: "0 \<le> ?next" by simp
  from Cons.prems(3) have small: "foldl (\<lambda>ident char. ident * 62 + digitValue char) ?next s < 2 ^ 53"
    by simp
  from accumulate_ge [OF nn, of s] small have n53: "?next < 2 ^ 53" by simp
  with d Cons.prems(2) have p53: "ident * 62 < 2 ^ 53" by simp
  from Cons.prems(2) p53 have r1: "roundDouble (ident * 62) = ident * 62"
    by (intro roundDouble_exact) simp
  from nn n53 have r2: "roundDouble ?next = ?next"
    by (intro roundDouble_exact) simp
  from Cons.IH [OF rest nn small] ne dv r1 r2 show ?case
    by (simp add: Let_def BASE_62)
qed

lemma accumulate_short:
  assumes "set s \<subseteq> set CHARACTERS" and "length s \<le> 8"
  shows "foldl (\<lambda>ident char. ident * 62 + digitValue char) 0 s < 2 ^ 53"
proof -
  from decodeShortUrl_loop_valid [OF assms(1), of 0]
  have run: "decodeShortUrl_loop 0 s
               = Inr (foldl (\<lambda>ident char. ident * 62 + digitValue char) 0 s)" .
  from decodeShortUrl_range [OF run]
  have "foldl (\<lambda>ident char. ident * 62 + digitValue char) 0 s < 62 ^ length s" by simp
  moreover have "(62::int) ^ length s \<le> 62 ^ 8"
    using assms(2) by (intro power_increasing) simp_all
  ultimately show ?thesis by simp
qed

lemma decodeShortUrl_double_short:
  assumes "length s \<le> 8"
  shows "decodeShortUrl_double s = decodeShortUrl s"
proof (cases "find (\<lambda>c. c \<notin> set CHARACTERS) s")
  case None
  then have v: "set s \<subseteq> set CHARACTERS" by (auto simp: find_None_iff)
  from decodeShortUrl_double_loop_exact [OF v _ accumulate_short [OF v assms]]
       decodeShortUrl_loop_valid [OF v, of 0]
  show ?thesis by (simp add: decodeShortUrl_double_def decodeShortUrl_def)
next
  case (Some c)
  from decodeShortUrl_double_loop_invalid [OF Some, of 0]
       decodeShortUrl_loop_invalid [OF Some, of 0]
  show ?thesis by (simp add: decodeShortUrl_double_def decodeShortUrl_def)
qed

text \<open>
  Claim C4 as stated fails on \<^verbatim>\<open>"999999999"\<close>, a string of alphabet characters:
  the value accumulated by \<open>ident * 62 + digitValue char\<close> is 13537086546263551,
  and the loop, whose last sum is rounded to a double, returns 13537086546263552.
\<close>

theorem decodeShortUrl_rounding_counterexample:
  "set (lit ''999999999'') \<subseteq> set CHARACTERS
   \<and> foldl (\<lambda>ident char. ident * 62 + digitValue char) 0 (lit ''999999999'')
       = 13537086546263551
   \<and> decodeShortUrl_double (lit ''999999999'') = Inr 13537086546263552"
proof (intro conjI)
  show "set (lit ''999999999'') \<subseteq> set CHARACTERS"
    by (simp add: CHARACTERS_def lit_def)
  show "foldl (\<lambda>ident char. ident * 62 + digitValue char) 0 (lit ''999999999'')
          = 13537086546263551"
    by (simp add: digitValue_def CHARACTERS_def lit_def)
  show "decodeShortUrl_double (lit ''999999999'') = Inr 13537086546263552"
    by (simp add: decodeShortUrl_double_def CHARACTERS_def lit_def BASE_def roundDouble_exact
        roundDouble_last_step Let_def)
qed

text \<open>
  Claim C4, amended: \<^verbatim>\<open>decodeShortUrl\<close> raises the error if and only if the
  string contains a character that is not in the alphabet; the message of the error
  ends with the first such character; on a string of alphabet characters whose
  accumulated value \<open>ident * 62 + digitValue char\<close>, taken from left to right, is
  below \<open>2 ^ 53\<close> it returns that value; and every string of at most 8 alphabet
  characters has such a value.
\<close>

theorem decodeShortUrl_double_characterisation:
  "((\<exists>e. decodeShortUrl_double s = Inl e) \<longleftrightarrow> (\<exists>c \<in> set s. c \<notin> set CHARACTERS))
   \<and> (find (\<lambda>c. c \<notin> set CHARACTERS) s = Some c \<longrightarrow>
        decodeShortUrl_double s = Inl (Error (lit ''Invalid character in short URL: '' @ [c])))
   \<and> (set s \<subseteq> set CHARACTERS
        \<and> foldl (\<lambda>ident char. ident * 62 + digitValue char) 0 s < 2 ^ 53 \<longrightarrow>
        decodeShortUrl_double s
          = Inr (foldl (\<lambda>ident char. ident * 62 + digitValue char) 0 s))
   \<and> (set s \<subseteq> set CHARACTERS \<and> length s \<le> 8 \<longrightarrow>
        foldl (\<lambda>ident char. ident * 62 + digitValue char) 0 s < 2 ^ 53)"
proof (intro conjI impI)
  show "(\<exists>e. decodeShortUrl_double s = Inl e) \<longleftrightarrow> (\<exists>c \<in> set s. c \<notin> set CHARACTERS)"
  proof (cases "find (\<lambda>c. c \<notin> set CHARACTERS) s")
    case None
    then have "set s \<subseteq> set CHARACTERS" by (auto simp: find_None_iff)
    with decodeShortUrl_double_loop_returns [of s 0] show ?thesis
      by (auto simp: decodeShortUrl_double_def)
  next
    case (Some c)
    then have "\<exists>c \<in> set s. c \<notin> set CHARACTERS"
      by (auto simp: find_Some_iff)
    with decodeShortUrl_double_loop_invalid [OF Some, of 0] show ?thesis
      by (auto simp: decodeShortUrl_double_def)
  qed
next
  assume "find (\<lambda>c. c \<notin> set CHARACTERS) s = Some c"
  from decodeShortUrl_double_loop_invalid [OF this, of 0]
  show "decodeShortUrl_double s = Inl (Error (lit ''Invalid character in short URL: '' @ [c]))"
    by (simp add: decodeShortUrl_double_def invalidCharacter_def)
next
  assume a: "set s \<subseteq> set CHARACTERS
             \<and> foldl (\<lambda>ident char. ident * 62 + digitValue char) 0 s < 2 ^ 53"
  then have v: "set s \<subseteq> set CHARACTERS"
    and b: "foldl (\<lambda>ident char. ident * 62 + digitValue char) 0 s < 2 ^ 53" by simp_all
  from decodeShortUrl_double_loop_exact [OF v _ b]
  show "decodeShortUrl_double s
          = Inr (foldl (\<lambda>ident char. ident * 62 + digitValue char) 0 s)"
    by (simp add: decodeShortUrl_double_def)
next
  assume "set s \<subseteq> set CHARACTERS \<and> length s \<le> 8"
  then have "set s \<subseteq> set CHARACTERS" and "length s \<le> 8" by simp_all
  then show "foldl (\<lambda>ident char. ident * 62 + digitValue char) 0 s < 2 ^ 53"
    by (rule accumulate_short)
qed

text \<open>The theorem of C4 at \<^verbatim>\<open>"ABC$123"\<close> and at \<^verbatim>\<open>"BA9"\<close>.\<close>

theorem decodeShortUrl_double_characterisation_witness:
  "(\<exists>c \<in> set (lit ''ABC$123''). c \<notin> set CHARACTERS)
   \<and> find (\<lambda>c. c \<notin> set CHARACTERS) (lit ''ABC$123'') = Some (of_char CHR ''$'')
   \<and> decodeShortUrl_double (lit ''ABC$123'')
       = Inl (Error (lit ''Invalid character in short URL: '' @ [of_char CHR ''$'']))
   \<and> set (lit ''BA9'') \<subseteq> set CHARACTERS
   \<and> length (lit ''BA9'') \<le> 8
   \<and> foldl (\<lambda>ident char. ident * 62 + digitValue char) 0 (lit ''BA9'') < 2 ^ 53
   \<and> decodeShortUrl_double (lit ''BA9'') = Inr 3905"
proof -
  have f: "find (\<lambda>c. c \<notin> set CHARACTERS) (lit ''ABC$123'') = Some (of_char CHR ''$'')"
    by (simp add: CHARACTERS_def lit_def)
  have m: "set (lit ''BA9'') \<subseteq> set CHARACTERS"
    by (simp add: CHARACTERS_def lit_def)
  have l: "length (lit ''BA9'') \<le> 8" by (simp add: lit_def)
  have v: "foldl (\<lambda>ident char. ident * 62 + digitValue char) 0 (lit ''BA9'') = 3905"
    by (simp add: digitValue_def CHARACTERS_def lit_def)
  have x: "\<exists>c \<in> set (lit ''ABC$123''). c \<notin> set CHARACTERS"
    by (simp add: CHARACTERS_def lit_def)
  from decodeShortUrl_double_characterisation [of "lit ''ABC$123''" "of_char CHR ''$''"]
       decodeShortUrl_double_characterisation [of "lit ''BA9''" "of_char CHR ''$''"] f m l v x
  show ?thesis by simp
qed

section \<open>The top-level operations: lemmas and claims\<close>

subsection \<open>decodeUrl\<close>

text \<open>
  Claim C5: \<^verbatim>\<open>decodeUrl\<close> never lets an exception out. When the base-62 decoding
  of the short code raises, and when no mapping is stored for the decoded identifier,
  it returns \<^verbatim>\<open>undefined\<close>, the same result in both cases.
\<close>

theorem decodeUrl_no_failure:
  "(\<exists>r. decodeUrl shortUrl urlStorage = Inr r)
   \<and> (decodeShortUrl (extractShortCode shortUrl) = Inl e \<longrightarrow>
        decodeUrl shortUrl urlStorage = Inr None)
   \<and> (decodeShortUrl (extractShortCode shortUrl) = Inr ident \<and> urlStorage ident = None \<longrightarrow>
        decodeUrl shortUrl urlStorage = Inr None)"
  by (auto simp: decodeUrl_def decodeUrl_try_def getOriginalUrl_def Let_def split: sum.splits)

lemma extract_invalid: "extractShortCode (lit ''short.url/r/AB$123'') = lit ''AB$123''"
  by (simp add: extractShortCode_def stripProtocol_def lit_def)

lemma extract_valid: "extractShortCode (lit ''https://short.url/r/ABC123'') = lit ''ABC123''"
  by (simp add: extractShortCode_def stripProtocol_def lit_def)

lemma decode_invalid:
  "decodeShortUrl (lit ''AB$123'')
     = Inl (Error (lit ''Invalid character in short URL: '' @ [of_char CHR ''$'']))"
  by (simp add: decodeShortUrl_def CHARACTERS_def lit_def BASE_def invalidCharacter_def)

lemma decode_valid: "decodeShortUrl (lit ''ABC123'') = Inr 15460127"
  by (simp add: decodeShortUrl_def CHARACTERS_def lit_def BASE_def)

text \<open>
  The theorem of C5 at a short URL with an invalid character and at a well-formed short
  URL that the empty store does not hold.
\<close>

theorem decodeUrl_no_failure_witness:
  "decodeShortUrl (extractShortCode (lit ''short.url/r/AB$123''))
     = Inl (Error (lit ''Invalid character in short URL: '' @ [of_char CHR ''$'']))
   \<and> decodeUrl (lit ''short.url/r/AB$123'') Map.empty = Inr None
   \<and> decodeShortUrl (extractShortCode (lit ''https://short.url/r/ABC123'')) = Inr 15460127
   \<and> (Map.empty :: store) 15460127 = None
   \<and> decodeUrl (lit ''https://short.url/r/ABC123'') Map.empty = Inr None"
  using decodeUrl_no_failure
          [of "lit ''short.url/r/AB$123''" Map.empty
              "Error (lit ''Invalid character in short URL: '' @ [of_char CHR ''$''])" 0]
        decodeUrl_no_failure
          [of "lit ''https://short.url/r/ABC123''" Map.empty "Error []" 15460127]
  by (simp add: extract_invalid extract_valid decode_invalid decode_valid)

subsection \<open>buildShortUrl\<close>

text \<open>
  Claim C7 as stated fails where an enabled part has an empty string: with the redirect
  path enabled and the redirect segment \<^verbatim>\<open>""\<close>, the claimed concatenation for
  identifier 0 is \<^verbatim>\<open>"short.url//A"\<close>, and \<^verbatim>\<open>buildShortUrl\<close> returns
  \<^verbatim>\<open>"short.url/A"\<close>.
\<close>

theorem buildShortUrl_counterexample:
  "buildShortUrl 0 (Options (DEFAULT_SHORT_URL_OPTIONS\<lparr>redirectPathSegment := Value []\<rparr>))
     = lit ''short.url/A''
   \<and> claimedConcatenation
        (buildOpts (Options (DEFAULT_SHORT_URL_OPTIONS\<lparr>redirectPathSegment := Value []\<rparr>)))
        (encodeId 0)
     = lit ''short.url//A''
   \<and> buildShortUrl 0 (Options (DEFAULT_SHORT_URL_OPTIONS\<lparr>redirectPathSegment := Value []\<rparr>))
     \<noteq> claimedConcatenation
          (buildOpts (Options (DEFAULT_SHORT_URL_OPTIONS\<lparr>redirectPathSegment := Value []\<rparr>)))
          (encodeId 0)"
  by (simp add: buildShortUrl_def claimedConcatenation_def buildOpts_def
      spreadShortUrlOptions_def DEFAULT_SHORT_URL_OPTIONS_def encodeId_def
      encodeId_loop_nonpos CHARACTERS_0 lit_def)

text \<open>
  Claim C7, amended: for every identifier and every options argument,
  \<^verbatim>\<open>buildShortUrl\<close> returns the concatenation, in order, of the protocol followed by
  \<^verbatim>\<open>"://"\<close> (when protocol inclusion is enabled and the protocol is not empty), the
  domain, the separator followed by the redirect segment (when redirect-path inclusion
  is enabled and the segment is not empty), and the separator followed by the base-62
  short code of the identifier, all read from the options merged over the defaults. A
  domain or separator that is \<^verbatim>\<open>undefined\<close> there is written as the text
  \<^verbatim>\<open>undefined\<close>.
\<close>

theorem buildShortUrl_concatenation:
  "buildShortUrl ident options = amendedConcatenation (buildOpts options) (encodeId ident)"
  by (simp add: buildShortUrl_def amendedConcatenation_def Let_def)

subsection \<open>createShortUrl\<close>

lemma createOpts_customOnly:
  "createOpts d (Some (optionsWith customOnly fn w))
     = \<lparr>domain = Value d,
        includeRedirectPath = Value True,
        redirectPathSegment = Value (lit ''r''),
        includeProtocol = Value False,
        protocol = Value (lit ''https''),
        pathSeparator = Value (lit ''/''),
        hashAlgorithm = Value Custom,
        customHashFn = Value (\<lambda>url. fst (fn url w))\<rparr>"
  by (simp add: createOpts_def spreadCreateOptions_def optionsWith_def customOnly_def
      DEFAULT_CREATE_OPTIONS_def DEFAULT_SHORT_URL_OPTIONS_def
      ShortUrlOptions.defs CreateShortUrlOptions.defs)

lemma customSelected_customOnly:
  "customSelected (createOpts d (Some (optionsWith customOnly fn w)))"
  by (simp add: createOpts_customOnly customSelected_def)

lemma positiveHash_customOnly:
  "positiveHash longUrl d (Some (optionsWith customOnly fn w)) = \<bar>fst (fn longUrl w)\<bar>"
  by (simp add: positiveHash_def computeHash_def customSelected_customOnly)
     (simp add: createOpts_customOnly)

lemma buildShortUrl_customOnly:
  "buildShortUrl ident
     (Options (ShortUrlOptions.truncate (createOpts d (Some (optionsWith customOnly fn w)))))
     = d @ lit ''/r/'' @ encodeId ident"
  by (simp add: createOpts_customOnly buildShortUrl_def buildOpts_def spreadShortUrlOptions_def
      ShortUrlOptions.defs lit_def Let_def)

lemma createShortUrl_stateful_customOnly:
  "createShortUrl_stateful longUrl d customOnly fn w st
     = (d @ lit ''/r/'' @ encodeId \<bar>fst (fn longUrl w)\<bar>,
        snd (fn longUrl w),
        st(\<bar>fst (fn longUrl w)\<bar> \<mapsto> longUrl))"
  by (simp add: createShortUrl_stateful_def createShortUrl_def customSelected_customOnly
      positiveHash_customOnly buildShortUrl_customOnly storeUrlMapping_def Let_def)

lemma encodeId_1_2: "encodeId 1 = lit ''B''" "encodeId 2 = lit ''C''"
  by (simp_all add: encodeId_def encodeId_loop_pos encodeId_loop_nonpos CHARACTERS_def lit_def)

text \<open>
  Claim C8 as stated fails for a custom hash function that keeps state: with the
  counter \<^verbatim>\<open>() => ++n\<close> as the custom function, two successive calls with the same
  long URL, domain and options return \<^verbatim>\<open>"short.url/r/B"\<close> and then
  \<^verbatim>\<open>"short.url/r/C"\<close>, under the identifiers 1 and 2.
\<close>

theorem createShortUrl_stateful_counterexample:
  "createShortUrl_stateful (lit ''https://example.com/path'') (lit ''short.url'') customOnly
     counterHashFn 0 Map.empty
     = (lit ''short.url/r/B'', 1, [1 \<mapsto> lit ''https://example.com/path''])
   \<and> createShortUrl_stateful (lit ''https://example.com/path'') (lit ''short.url'') customOnly
       counterHashFn 1 [1 \<mapsto> lit ''https://example.com/path'']
     = (lit ''short.url/r/C'', 2,
        [1 \<mapsto> lit ''https://example.com/path'', 2 \<mapsto> lit ''https://example.com/path''])
   \<and> lit ''short.url/r/B'' \<noteq> lit ''short.url/r/C''"
  by (simp add: createShortUrl_stateful_customOnly counterHashFn_def encodeId_1_2)
     (simp add: lit_def)

text \<open>
  Claim C8, amended: for every long URL, domain and options under which
  \<^verbatim>\<open>createShortUrl\<close> uses a built-in hash algorithm (no custom function is
  called), the short URL returned is the same whatever the store holds, it is built
  from the identifier \<open>positiveHash\<close>, which depends on these arguments alone, and a
  second call on the store that the first call left returns the same short URL and
  leaves the same store.
\<close>

theorem createShortUrl_idempotent:
  assumes "\<not> customSelected (createOpts d opt)"
  shows "fst (createShortUrl longUrl d opt st) = fst (createShortUrl longUrl d opt st')
   \<and> fst (createShortUrl longUrl d opt st)
       = buildShortUrl (positiveHash longUrl d opt)
           (Options (ShortUrlOptions.truncate (createOpts d opt)))
   \<and> (getProp (hashAlgorithm (createOpts d opt)) = Some Sdbm
        \<longrightarrow> positiveHash longUrl d opt = \<bar>sdbm_loop 0 longUrl\<bar>)
   \<and> (getProp (hashAlgorithm (createOpts d opt)) \<noteq> Some Sdbm
        \<longrightarrow> positiveHash longUrl d opt = \<bar>djb2_loop 5381 longUrl\<bar>)
   \<and> createShortUrl longUrl d opt (snd (createShortUrl longUrl d opt st))
       = createShortUrl longUrl d opt st"
  using assms
  by (simp add: createShortUrl_def storeUrlMapping_def positiveHash_def computeHash_def Let_def)

text \<open>
  The theorem of C8 at the default options, the empty store and a store that holds a
  mapping.
\<close>

theorem createShortUrl_idempotent_witness:
  "\<not> customSelected (createOpts (lit ''test.domain'') None)
   \<and> fst (createShortUrl (lit ''https://example.com/path'') (lit ''test.domain'') None Map.empty)
       = fst (createShortUrl (lit ''https://example.com/path'') (lit ''test.domain'') None
               [7 \<mapsto> lit ''x''])
   \<and> positiveHash (lit ''https://example.com/path'') (lit ''test.domain'') None
       = \<bar>djb2_loop 5381 (lit ''https://example.com/path'')\<bar>
   \<and> createShortUrl (lit ''https://example.com/path'') (lit ''test.domain'') None
        (snd (createShortUrl (lit ''https://example.com/path'') (lit ''test.domain'') None
               Map.empty))
       = createShortUrl (lit ''https://example.com/path'') (lit ''test.domain'') None Map.empty"
  using createShortUrl_idempotent
          [where d = "lit ''test.domain''" and opt = None
             and longUrl = "lit ''https://example.com/path''"
             and st = Map.empty and st' = "[7 \<mapsto> lit ''x'']",
           OF default_not_custom]
        default_not_custom [of "lit ''test.domain''"] default_not_sdbm [of "lit ''test.domain''"]
  by simp



end
